theory Spec2Isabelle
  imports Complex_Main
begin

section \<open>Regular expressions, as far as the providers use Python's re module\<close>

text \<open>
  The two providers call \<^verbatim>\<open>re.search\<close>, \<^verbatim>\<open>re.match\<close> and \<^verbatim>\<open>re.sub\<close> on three fixed
  patterns. A pattern is a list of alternatives (the top-level \<^verbatim>\<open>|\<close>), each a sequence of
  items. The matcher is a backtracking one: an item maps a match state (position, rest of
  the subject, group marks) to the list of states it can leave, in the order Python tries
  them (greedy first). Neither MULTILINE nor DOTALL is set in the source, so \<^verbatim>\<open>^\<close> holds at
  position 0 only, \<^verbatim>\<open>$\<close> holds at the end and before a final newline, and \<^verbatim>\<open>.\<close> is any
  character but the newline. A negated class such as \<^verbatim>\<open>[^/]\<close> does match the newline.
\<close>

datatype rx =
    Bol
  | Eol
  | Lit string
  | Dot
  | Opt rx
  | PlusNot char
  | DotStar
  | GOpen
  | GClose

type_synonym mstate = "nat \<times> string \<times> nat list"

definition newline :: char where
  "newline = CHR 0x0A"

fun rx_item :: "rx \<Rightarrow> mstate \<Rightarrow> mstate list" where
  "rx_item Bol (p, s, m) = (if p = 0 then [(p, s, m)] else [])"
| "rx_item Eol (p, s, m) = (if s = [] \<or> s = [newline] then [(p, s, m)] else [])"
| "rx_item (Lit l) (p, s, m) =
     (if take (length l) s = l then [(p + length l, drop (length l) s, m)] else [])"
| "rx_item Dot (p, s, m) =
     (case s of [] \<Rightarrow> [] | c # cs \<Rightarrow> if c = newline then [] else [(Suc p, cs, m)])"
| "rx_item (Opt r) (p, s, m) = rx_item r (p, s, m) @ [(p, s, m)]"
| "rx_item (PlusNot c) (p, s, m) =
     map (\<lambda>n. (p + n, drop n s, m)) (rev [1..<Suc (length (takeWhile (\<lambda>x. x \<noteq> c) s))])"
| "rx_item DotStar (p, s, m) =
     map (\<lambda>n. (p + n, drop n s, m)) (rev [0..<Suc (length (takeWhile (\<lambda>x. x \<noteq> newline) s))])"
| "rx_item GOpen (p, s, m) = [(p, s, m @ [p])]"
| "rx_item GClose (p, s, m) = [(p, s, m @ [p])]"

fun rx_seq :: "rx list \<Rightarrow> mstate \<Rightarrow> mstate list" where
  "rx_seq [] st = [st]"
| "rx_seq (r # rs) st = concat (map (rx_seq rs) (rx_item r st))"

type_synonym pattern = "rx list list"

text \<open>All the ways the pattern matches the subject from position \<open>pos\<close> on, best first.\<close>

definition rx_matches_at :: "pattern \<Rightarrow> string \<Rightarrow> nat \<Rightarrow> mstate list" where
  "rx_matches_at pat subject pos =
     concat (map (\<lambda>alt. rx_seq alt (pos, drop pos subject, [])) pat)"

text \<open>\<^verbatim>\<open>re.match\<close>: the match at position 0, or None.\<close>

definition re_match :: "pattern \<Rightarrow> string \<Rightarrow> mstate option" where
  "re_match pat subject =
     (case rx_matches_at pat subject 0 of [] \<Rightarrow> None | st # _ \<Rightarrow> Some st)"

text \<open>\<^verbatim>\<open>re.search\<close>: the match at the leftmost position that has one, or None.\<close>

definition re_search :: "pattern \<Rightarrow> string \<Rightarrow> mstate option" where
  "re_search pat subject =
     (case concat (map (rx_matches_at pat subject) [0..<Suc (length subject)]) of
        [] \<Rightarrow> None
      | st # _ \<Rightarrow> Some st)"

text \<open>
  A replacement template: literal text and group references (\<^verbatim>\<open>\1\<close>, \<^verbatim>\<open>\2\<close>). The marks of
  a match are the positions at which its groups opened and closed, in pattern order; the
  patterns here have no nested group, so group \<open>n\<close> lies between marks \<open>2n - 2\<close> and
  \<open>2n - 1\<close>.
\<close>

datatype repl = Txt string | Ref nat

fun group :: "string \<Rightarrow> nat list \<Rightarrow> nat \<Rightarrow> string" where
  "group subject m n =
     (if 0 < n \<and> 2 * n \<le> length m
      then take (m ! (2 * n - 1) - m ! (2 * n - 2)) (drop (m ! (2 * n - 2)) subject)
      else [])"

fun expand :: "repl list \<Rightarrow> string \<Rightarrow> nat list \<Rightarrow> string" where
  "expand [] subject m = []"
| "expand (Txt t # ts) subject m = t @ expand ts subject m"
| "expand (Ref n # ts) subject m = group subject m n @ expand ts subject m"

text \<open>
  \<^verbatim>\<open>re.sub\<close> for a pattern that starts with \<^verbatim>\<open>^\<close>: such a pattern matches at position 0 or
  nowhere (lemma \<open>bol_only_at_start\<close> below), so the only substitution is that of a
  match at 0; what follows the match is kept.
\<close>

definition re_sub :: "pattern \<Rightarrow> repl list \<Rightarrow> string \<Rightarrow> string" where
  "re_sub pat template subject =
     (case re_match pat subject of
        None \<Rightarrow> subject
      | Some (p, rest, m) \<Rightarrow> expand template subject m @ rest)"

section \<open>github\_user\_provider.py\<close>

record github_user_provider =
  gh_repo :: string
  gh_settings :: "(string \<times> string) list"

text \<open>\<^verbatim>\<open>'^https?://github.com/[^/]+/?$'\<close>\<close>

definition github_user_pattern :: pattern where
  "github_user_pattern =
     [[Bol, Lit ''http'', Opt (Lit ''s''), Lit ''://github'', Dot, Lit ''com/'',
       PlusNot (CHR ''/''), Opt (Lit ''/''), Eol]]"

definition github_match_url :: "github_user_provider \<Rightarrow> bool" where
  "github_match_url self = (re_search github_user_pattern (gh_repo self) \<noteq> None)"

section \<open>package\_provider.py: the legacy download URL\<close>

text \<open>\<^verbatim>\<open>'^(https://nodeload.github.com/[^/]+/[^/]+/)zipball(/.*)$'\<close> and \<^verbatim>\<open>'\\1zip\\2'\<close>\<close>

definition zipball_pattern :: pattern where
  "zipball_pattern =
     [[Bol, GOpen, Lit ''https://nodeload'', Dot, Lit ''github'', Dot, Lit ''com/'',
       PlusNot (CHR ''/''), Lit ''/'', PlusNot (CHR ''/''), Lit ''/'', GClose,
       Lit ''zipball'', GOpen, Lit ''/'', DotStar, GClose, Eol]]"

definition zip_template :: "repl list" where
  "zip_template = [Ref 1, Txt ''zip'', Ref 2]"

definition rewrite_zipball :: "string \<Rightarrow> string" where
  "rewrite_zipball url = re_sub zipball_pattern zip_template url"

section \<open>Python values and the operations the provider applies to them\<close>

text \<open>
  The provider works on what \<^verbatim>\<open>json.loads\<close> returns and on dicts it builds from it.
  Python's \<^verbatim>\<open>None\<close>, \<^verbatim>\<open>True\<close>/\<^verbatim>\<open>False\<close>, numbers, strings, lists and dicts are the
  constructors of \<open>pyval\<close>. A number is modelled by the rational it denotes, for an int
  and a float alike; the binary rounding of a float is outside the model. A dict is an
  association list in insertion order, without repeated keys.
\<close>

datatype pyval =
    PNone
  | PBool bool
  | PNum rat
  | PStr string
  | PList "pyval list"
  | PDict "(pyval \<times> pyval) list"

type_synonym pydict = "(pyval \<times> pyval) list"

datatype error = TypeError | KeyError | AttributeError | IndexError | ValueError

text \<open>Sequencing: an exception ends the computation.\<close>

fun then_do :: "error + 'a \<Rightarrow> ('a \<Rightarrow> error + 'b) \<Rightarrow> error + 'b" where
  "then_do (Inl e) f = Inl e"
| "then_do (Inr v) f = f v"

text \<open>The truth value of an object in \<^verbatim>\<open>if x\<close> and \<^verbatim>\<open>not x\<close>.\<close>

fun truthy :: "pyval \<Rightarrow> bool" where
  "truthy PNone = False"
| "truthy (PBool b) = b"
| "truthy (PNum n) = (n \<noteq> 0)"
| "truthy (PStr s) = (s \<noteq> [])"
| "truthy (PList xs) = (xs \<noteq> [])"
| "truthy (PDict kvs) = (kvs \<noteq> [])"

text \<open>\<^verbatim>\<open>x == False\<close>: \<^verbatim>\<open>False\<close> itself and the number zero.\<close>

fun eq_False :: "pyval \<Rightarrow> bool" where
  "eq_False (PBool b) = (\<not> b)"
| "eq_False (PNum n) = (n = 0)"
| "eq_False x = False"

text \<open>
  A dict key must be hashable: a list or a dict raises TypeError. \<^verbatim>\<open>True\<close> and \<^verbatim>\<open>False\<close> are
  the keys 1 and 0.
\<close>

fun dict_key :: "pyval \<Rightarrow> error + pyval" where
  "dict_key (PList xs) = Inl TypeError"
| "dict_key (PDict kvs) = Inl TypeError"
| "dict_key (PBool b) = Inr (PNum (if b then 1 else 0))"
| "dict_key k = Inr k"

fun dict_set :: "pyval \<Rightarrow> pyval \<Rightarrow> pydict \<Rightarrow> pydict" where
  "dict_set k v [] = [(k, v)]"
| "dict_set k v ((k', v') # kvs) =
     (if k' = k then (k', v) # kvs else (k', v') # dict_set k v kvs)"

fun dict_del :: "pyval \<Rightarrow> pydict \<Rightarrow> pydict" where
  "dict_del k [] = []"
| "dict_del k ((k', v') # kvs) = (if k' = k then kvs else (k', v') # dict_del k kvs)"

text \<open>\<^verbatim>\<open>x.get(key, default)\<close> with a string key: only a dict has the method.\<close>

fun py_get :: "pyval \<Rightarrow> string \<Rightarrow> pyval \<Rightarrow> error + pyval" where
  "py_get (PDict kvs) k dflt =
     Inr (case map_of kvs (PStr k) of None \<Rightarrow> dflt | Some v \<Rightarrow> v)"
| "py_get x k dflt = Inl AttributeError"

text \<open>\<^verbatim>\<open>x[key]\<close> with a string key.\<close>

fun py_getitem_str :: "pyval \<Rightarrow> string \<Rightarrow> error + pyval" where
  "py_getitem_str (PDict kvs) k =
     (case map_of kvs (PStr k) of None \<Rightarrow> Inl KeyError | Some v \<Rightarrow> Inr v)"
| "py_getitem_str x k = Inl TypeError"

text \<open>\<^verbatim>\<open>x[0]\<close>\<close>

fun py_getitem_0 :: "pyval \<Rightarrow> error + pyval" where
  "py_getitem_0 (PList []) = Inl IndexError"
| "py_getitem_0 (PList (x # xs)) = Inr x"
| "py_getitem_0 (PStr []) = Inl IndexError"
| "py_getitem_0 (PStr (c # cs)) = Inr (PStr [c])"
| "py_getitem_0 (PDict kvs) =
     (case map_of kvs (PNum 0) of None \<Rightarrow> Inl KeyError | Some v \<Rightarrow> Inr v)"
| "py_getitem_0 x = Inl TypeError"

text \<open>\<^verbatim>\<open>x[key] = value\<close> with a string key.\<close>

fun py_setitem_str :: "pyval \<Rightarrow> string \<Rightarrow> pyval \<Rightarrow> error + pyval" where
  "py_setitem_str (PDict kvs) k v = Inr (PDict (dict_set (PStr k) v kvs))"
| "py_setitem_str x k v = Inl TypeError"

fun is_substr :: "string \<Rightarrow> string \<Rightarrow> bool" where
  "is_substr l [] = (l = [])"
| "is_substr l (c # cs) = (take (length l) (c # cs) = l \<or> is_substr l cs)"

text \<open>
  \<^verbatim>\<open>key in x\<close> with a string key: a key of a dict, an element of a list, a substring of
  a string; anything else is not iterable.
\<close>

fun py_contains_str :: "string \<Rightarrow> pyval \<Rightarrow> error + bool" where
  "py_contains_str k (PDict kvs) = Inr (map_of kvs (PStr k) \<noteq> None)"
| "py_contains_str k (PList xs) = Inr (PStr k \<in> set xs)"
| "py_contains_str k (PStr s) = Inr (is_substr k s)"
| "py_contains_str k x = Inl TypeError"

text \<open>What \<^verbatim>\<open>for v in x\<close> runs over.\<close>

fun py_iter :: "pyval \<Rightarrow> error + pyval list" where
  "py_iter (PList xs) = Inr xs"
| "py_iter (PDict kvs) = Inr (map fst kvs)"
| "py_iter (PStr s) = Inr (map (\<lambda>c. PStr [c]) s)"
| "py_iter x = Inl TypeError"

text \<open>\<^verbatim>\<open>x.items()\<close>\<close>

fun py_items :: "pyval \<Rightarrow> error + pydict" where
  "py_items (PDict kvs) = Inr kvs"
| "py_items x = Inl AttributeError"

text \<open>\<^verbatim>\<open>x.extend(y)\<close>: only a list has the method.\<close>

fun py_extend :: "pyval \<Rightarrow> pyval \<Rightarrow> error + pyval" where
  "py_extend (PList xs) y = then_do (py_iter y) (\<lambda>ys. Inr (PList (xs @ ys)))"
| "py_extend x y = Inl AttributeError"

text \<open>
  \<^verbatim>\<open>dict(a, b)\<close>: the constructor takes at most one positional argument, so the call with
  two item lists raises TypeError whatever they hold.
\<close>

definition py_dict2 :: "pydict \<Rightarrow> pydict \<Rightarrow> error + pydict" where
  "py_dict2 a b = Inl TypeError"

text \<open>
  \<^verbatim>\<open>urlparse\<close> returns a named 6-tuple. A tuple is indexed by integers and slices; a string
  index raises TypeError (the fields are attributes, not keys).
\<close>

record parse_result =
  url_scheme :: string
  url_netloc :: string
  url_path :: string
  url_params :: string
  url_query :: string
  url_fragment :: string

definition tuple_getitem_str :: "parse_result \<Rightarrow> string \<Rightarrow> error + string" where
  "tuple_getitem_str t k = Inl TypeError"

section \<open>package\_provider.py\<close>

text \<open>
  The collaborators the provider calls and whose code is not part of these sources are
  parameters of the model: the download manager and the JSON decoder, \<^verbatim>\<open>urlparse\<close> and
  \<^verbatim>\<open>os.path\<close> (which differ with the platform), the two hosting clients, the two methods
  inherited from \<^verbatim>\<open>ReleaseSelector\<close>, and the parser behind \<^verbatim>\<open>float\<close> of a string
  (\<open>None\<close> where it raises ValueError). Each is a function of its argument: a deterministic
  collaborator that leaves the objects it is handed as they are.
\<close>

record env =
  download_url :: "string \<Rightarrow> string option"
  json_loads :: "string \<Rightarrow> pyval option"
  urlparse :: "string \<Rightarrow> parse_result"
  dirname :: "string \<Rightarrow> string"
  normpath :: "string \<Rightarrow> string"
  github_repo_info :: "pyval \<Rightarrow> pyval"
  bitbucket_repo_info :: "pyval \<Rightarrow> pyval"
  github_download_info :: "pyval \<Rightarrow> pyval"
  bitbucket_download_info :: "pyval \<Rightarrow> pyval"
  select_release :: "pyval \<Rightarrow> pyval"
  select_platform :: "pyval \<Rightarrow> pyval"
  float_of_str :: "string \<Rightarrow> rat option"

text \<open>The fields of a \<^verbatim>\<open>PackageProvider\<close> object, and \<^verbatim>\<open>__init__\<close>.\<close>

record package_provider =
  repo_info :: pyval
  schema_version :: rat
  repo :: string
  settings :: pyval
  unavailable_packages :: "pyval list"

definition init :: "string \<Rightarrow> pyval \<Rightarrow> package_provider" where
  "init r s =
     \<lparr>repo_info = PNone, schema_version = 0, repo = r, settings = s,
      unavailable_packages = []\<rparr>"

definition match_url :: "package_provider \<Rightarrow> bool" where
  "match_url self = True"

text \<open>
  \<^verbatim>\<open>fetch_url\<close>: \<^verbatim>\<open>False\<close> when the download fails or the body does not decode
  (UnicodeDecodeError is a ValueError too), else the decoded value.
\<close>

definition fetch_url :: "env \<Rightarrow> string \<Rightarrow> pyval" where
  "fetch_url E url =
     (case download_url E url of
        None \<Rightarrow> PBool False
      | Some json_string \<Rightarrow>
          (case json_loads E json_string of None \<Rightarrow> PBool False | Some v \<Rightarrow> v))"

text \<open>
  Lines 71 to 76 of \<^verbatim>\<open>fetch_repo\<close>: the base that relative includes are joined to. The
  pieces of the URL are read with string subscripts on the tuple.
\<close>

definition relative_base :: "env \<Rightarrow> string \<Rightarrow> error + string" where
  "relative_base E r =
     (let url_pieces = urlparse E r in
      then_do (tuple_getitem_str url_pieces ''scheme'') (\<lambda>scheme.
      then_do (tuple_getitem_str url_pieces ''netloc'') (\<lambda>netloc.
      let domain = scheme @ ''://'' @ netloc in
      then_do (tuple_getitem_str url_pieces ''path'') (\<lambda>p.
      then_do (if p = [] then Inr ''/'' else tuple_getitem_str url_pieces ''path'') (\<lambda>path.
      Inr (domain @ (if last path \<noteq> CHR ''/'' then dirname E path else path)))))))"

text \<open>\<^verbatim>\<open>'^\./|\.\./'\<close>\<close>

definition relative_pattern :: pattern where
  "relative_pattern = [[Bol, Lit ''./''], [Lit ''../'']]"

text \<open>
  Lines 80 to 87: the loop over the includes. It changes \<^verbatim>\<open>self.repo_info\<close> in place, so
  the dict is returned with the result, also when an exception ends the loop.
\<close>

fun include_loop :: "env \<Rightarrow> string \<Rightarrow> pyval list \<Rightarrow> pyval \<Rightarrow> (error + pyval) \<times> pyval" where
  "include_loop E base [] info = (Inr PNone, info)"
| "include_loop E base (include # rest) info =
     (case include of
        PStr inc \<Rightarrow>
          (let url = (if re_match relative_pattern inc \<noteq> None then normpath E (base @ inc)
                      else inc);
               include_info = fetch_url E url
           in if eq_False include_info then include_loop E base rest info
              else
                (case then_do (py_get include_info ''packages'' (PList [])) (\<lambda>included_packages.
                      then_do (py_getitem_str info ''packages'') (\<lambda>packages.
                      then_do (py_extend packages included_packages) (\<lambda>extended.
                      py_setitem_str info ''packages'' extended))) of
                   Inl e \<Rightarrow> (Inl e, info)
                 | Inr info' \<Rightarrow> include_loop E base rest info'))
      | _ \<Rightarrow> (Inl TypeError, info))"

text \<open>\<^verbatim>\<open>fetch_repo\<close>: the value it returns (or the exception it raises) and the object after.\<close>

definition fetch_repo :: "env \<Rightarrow> package_provider \<Rightarrow> (error + pyval) \<times> package_provider" where
  "fetch_repo E self =
     (if repo_info self \<noteq> PNone then (Inr PNone, self)
      else
        let self1 = self\<lparr>repo_info := fetch_url E (repo self)\<rparr> in
        if eq_False (repo_info self1) then (Inr (PBool False), self1)
        else
          (case py_contains_str ''includes'' (repo_info self1) of
             Inl e \<Rightarrow> (Inl e, self1)
           | Inr False \<Rightarrow> (Inr PNone, self1)
           | Inr True \<Rightarrow>
               (case relative_base E (repo self1) of
                  Inl e \<Rightarrow> (Inl e, self1)
                | Inr base \<Rightarrow>
                    (case py_get (repo_info self1) ''includes'' (PList []) of
                       Inl e \<Rightarrow> (Inl e, self1)
                     | Inr includes \<Rightarrow>
                         (case repo_info self1 of
                            PDict kvs \<Rightarrow>
                              (let self2 =
                                     self1\<lparr>repo_info := PDict (dict_del (PStr ''includes'') kvs)\<rparr>
                               in case py_iter includes of
                                    Inl e \<Rightarrow> (Inl e, self2)
                                  | Inr incs \<Rightarrow>
                                      (let (r, info) = include_loop E base incs (repo_info self2)
                                       in (r, self2\<lparr>repo_info := info\<rparr>)))
                          | _ \<Rightarrow> (Inl TypeError, self1))))))"

subsection \<open>get\_packages: one package entry\<close>

text \<open>
  Lines 149 to 154: the explicit fields of the entry that are set (truthy) are copied
  into \<^verbatim>\<open>info\<close>; \<^verbatim>\<open>homepage\<close> is stored as \<^verbatim>\<open>url\<close>.
\<close>

fun copy_set_fields :: "pyval \<Rightarrow> string list \<Rightarrow> pydict \<Rightarrow> error + pydict" where
  "copy_set_fields package [] info = Inr info"
| "copy_set_fields package (field # fs) info =
     (case py_get package field PNone of
        Inl e \<Rightarrow> Inl e
      | Inr v \<Rightarrow>
          copy_set_fields package fs
            (if truthy v then dict_set (PStr field) v info else info))"

definition explicit_info :: "pyval \<Rightarrow> error + pydict" where
  "explicit_info package =
     then_do (copy_set_fields package [''name'', ''description'', ''author'', ''last_modified''] [])
       (\<lambda>info.
     then_do (py_get package ''homepage'' PNone) (\<lambda>homepage.
     Inr (if truthy homepage then dict_set (PStr ''url'') homepage info else info)))"

text \<open>
  Lines 171, 173, 202 and 204: \<^verbatim>\<open>dict(fetched.items(), explicit.items())\<close>. The two
  arguments are evaluated, then \<^verbatim>\<open>dict\<close> is called with both.
\<close>

definition overlay :: "pyval \<Rightarrow> pydict \<Rightarrow> error + pydict" where
  "overlay fetched explicit =
     then_do (py_items fetched) (\<lambda>a.
     then_do (py_items (PDict explicit)) (\<lambda>b.
     py_dict2 a b))"

text \<open>
  A \<^verbatim>\<open>continue\<close> leaves the loop body; otherwise the body goes on with a value.
\<close>

datatype 'a flow = Continue | Next 'a

text \<open>Lines 164 to 176: the package-level details.\<close>

definition repo_details :: "env \<Rightarrow> pyval \<Rightarrow> pydict \<Rightarrow> error + pydict flow" where
  "repo_details E details info =
     (if truthy details then
        (let github = github_repo_info E details;
             bitbucket = bitbucket_repo_info E details
         in if truthy github then then_do (overlay github info) (\<lambda>i. Inr (Next i))
            else if truthy bitbucket then then_do (overlay bitbucket info) (\<lambda>i. Inr (Next i))
            else Inr Continue)
      else Inr (Next info))"

text \<open>
  Lines 191 to 193: the explicit fields of a release. The source reads them from
  \<^verbatim>\<open>releases[0]\<close>, whichever release the loop is at.
\<close>

fun copy_release_fields :: "pyval \<Rightarrow> string list \<Rightarrow> pydict \<Rightarrow> error + pydict" where
  "copy_release_fields releases [] download_info = Inr download_info"
| "copy_release_fields releases (field # fs) download_info =
     (case then_do (py_getitem_0 releases) (py_contains_str field) of
        Inl e \<Rightarrow> Inl e
      | Inr False \<Rightarrow> copy_release_fields releases fs download_info
      | Inr True \<Rightarrow>
          (case then_do (py_getitem_0 releases) (\<lambda>r0. py_getitem_str r0 field) of
             Inl e \<Rightarrow> Inl e
           | Inr v \<Rightarrow>
               copy_release_fields releases fs (dict_set (PStr field) v download_info)))"

text \<open>
  The message of a \<^verbatim>\<open>console_write\<close> that names the package is formatted with
  \<^verbatim>\<open>info['name']\<close>, which raises where the key is missing; the value is the name the
  message carries.
\<close>

definition console_write_name :: "pyval \<Rightarrow> error + pyval" where
  "console_write_name info = py_getitem_str info ''name''"

text \<open>
  Lines 189 to 209: the loop over \<^verbatim>\<open>releases\<close>. Its arguments are the list itself, the
  releases still to visit, \<^verbatim>\<open>download_info\<close> (created once, before the loop) and
  the list \<^verbatim>\<open>info['releases']\<close> built so far. The loop variable is the head of the
  second list; the body does not read it. The dict that is appended is the one later
  rounds write to, but they write the values of \<^verbatim>\<open>releases[0]\<close> again, so the appended
  value stays what it was.
\<close>

fun release_loop ::
    "env \<Rightarrow> pydict \<Rightarrow> pyval \<Rightarrow> pyval list \<Rightarrow> pydict \<Rightarrow> pyval list \<Rightarrow> error + pyval list" where
  "release_loop E info releases [] download_info acc = Inr acc"
| "release_loop E info releases (release # rest) download_info acc =
     (case copy_release_fields releases
             [''platforms'', ''sublime_text'', ''version'', ''url'', ''date''] download_info of
        Inl e \<Rightarrow> Inl e
      | Inr di \<Rightarrow>
          (case then_do (py_getitem_0 releases) (\<lambda>r0. py_getitem_str r0 ''details'') of
             Inl e \<Rightarrow> Inl e
           | Inr download_details \<Rightarrow>
               if truthy download_details then
                 (let github = github_download_info E download_details;
                      bitbucket = bitbucket_download_info E download_details
                  in if truthy github then
                       (case overlay github di of
                          Inl e \<Rightarrow> Inl e
                        | Inr di' \<Rightarrow> release_loop E info releases rest di' (acc @ [PDict di']))
                     else if truthy bitbucket then
                       (case overlay bitbucket di of
                          Inl e \<Rightarrow> Inl e
                        | Inr di' \<Rightarrow> release_loop E info releases rest di' (acc @ [PDict di']))
                     else
                       (case console_write_name (PDict info) of
                          Inl e \<Rightarrow> Inl e
                        | Inr u \<Rightarrow> release_loop E info releases rest di acc))
               else release_loop E info releases rest di (acc @ [PDict di])))"

text \<open>
  Lines 147 to 217: \<^verbatim>\<open>info\<close> as it stands after the selection, or the \<^verbatim>\<open>continue\<close> of
  line 176.
\<close>

definition selected_info :: "env \<Rightarrow> rat \<Rightarrow> pyval \<Rightarrow> error + pyval flow" where
  "selected_info E version package =
     then_do (explicit_info package) (\<lambda>info.
     if version \<ge> 2 then
       then_do (py_get package ''details'' PNone) (\<lambda>details.
       then_do (py_get package ''releases'' PNone) (\<lambda>releases0.
       then_do (repo_details E details info) (\<lambda>fl.
       case fl of
         Continue \<Rightarrow> Inr Continue
       | Next info1 \<Rightarrow>
           (let releases =
                  (if \<not> truthy releases0 \<and> truthy details
                   then PList [PDict [(PStr ''details'', details)]] else releases0);
                info2 = dict_set (PStr ''releases'') (PList []) info1
            in then_do (py_iter releases) (\<lambda>rs.
               then_do (release_loop E info2 releases rs [] []) (\<lambda>acc.
               Inr (Next (select_release E
                            (PDict (dict_set (PStr ''releases'') (PList acc) info2))))))))))
     else
       then_do (py_get package ''platforms'' PNone) (\<lambda>platforms.
       Inr (Next (select_platform E (PDict (dict_set (PStr ''platforms'') platforms info))))))"

text \<open>
  The two messages after which the loop over the packages goes on to the next entry:
  that of line 175 (\<^verbatim>\<open>Invalid "details" key for one of the packages in the repository %s.\<close>,
  formatted with \<^verbatim>\<open>self.repo\<close>) and that of line 224
  (\<^verbatim>\<open>No "releases" key for the package "%s" in the repository %s.\<close>, formatted with
  \<^verbatim>\<open>info['name']\<close> and \<^verbatim>\<open>self.repo\<close>). A message is kept as its format arguments. The
  messages the loop over the releases writes (line 206) do not end the round and are not
  kept.
\<close>

datatype message = Invalid_details string | No_releases pyval string

text \<open>
  What one round of the loop over the packages does: a \<^verbatim>\<open>continue\<close> after a message
  written to the console, which leaves the two collections as they are, an append to
  \<^verbatim>\<open>self.unavailable_packages\<close>, or an assignment to \<^verbatim>\<open>output\<close>.
\<close>

datatype outcome = Skipped message | Unavailable pyval | Resolved pyval pyval

text \<open>Lines 231 to 233: the download URL must be a string for \<^verbatim>\<open>re.sub\<close>.\<close>

definition rewrite_download :: "pyval \<Rightarrow> error + pyval" where
  "rewrite_download info =
     then_do (py_getitem_str info ''download'') (\<lambda>download.
     then_do (py_getitem_str download ''url'') (\<lambda>url.
     case url of
       PStr u \<Rightarrow>
         then_do (py_setitem_str download ''url'' (PStr (rewrite_zipball u))) (\<lambda>download'.
         py_setitem_str info ''download'' download')
     | _ \<Rightarrow> Inl TypeError))"

text \<open>Lines 219 to 235.\<close>

definition finish :: "string \<Rightarrow> pyval \<Rightarrow> pyval \<Rightarrow> error + outcome" where
  "finish r package info =
     (if \<not> truthy info then
        then_do (py_getitem_str package ''name'') (\<lambda>n. Inr (Unavailable n))
      else
        then_do (py_contains_str ''download'' info) (\<lambda>has_download.
        if \<not> has_download then
          then_do (console_write_name info) (\<lambda>n. Inr (Skipped (No_releases n r)))
        else
          then_do (py_contains_str ''url'' info) (\<lambda>has_url.
          then_do (if has_url then Inr info else py_setitem_str info ''url'' (PStr r)) (\<lambda>info1.
          then_do (rewrite_download info1) (\<lambda>info2.
          then_do (py_getitem_str info2 ''name'') (\<lambda>n.
          then_do (dict_key n) (\<lambda>k.
          Inr (Resolved k info2))))))))"

definition package_body :: "env \<Rightarrow> string \<Rightarrow> rat \<Rightarrow> pyval \<Rightarrow> error + outcome" where
  "package_body E r version package =
     then_do (selected_info E version package) (\<lambda>fl.
     case fl of
       Continue \<Rightarrow> Inr (Skipped (Invalid_details r))
     | Next info \<Rightarrow> finish r package info)"

subsection \<open>get\_packages\<close>

text \<open>
  The loop of line 146 over the packages, on \<^verbatim>\<open>output\<close> and
  \<^verbatim>\<open>self.unavailable_packages\<close>. An exception ends it; the names appended so far stay in
  the object.
\<close>

fun packages_loop ::
    "env \<Rightarrow> string \<Rightarrow> rat \<Rightarrow> pyval list \<Rightarrow> pydict \<Rightarrow> pyval list \<Rightarrow> (error + pydict) \<times> pyval list" where
  "packages_loop E r version [] output unavailable = (Inr output, unavailable)"
| "packages_loop E r version (package # rest) output unavailable =
     (case package_body E r version package of
        Inl e \<Rightarrow> (Inl e, unavailable)
      | Inr (Skipped m) \<Rightarrow> packages_loop E r version rest output unavailable
      | Inr (Unavailable n) \<Rightarrow> packages_loop E r version rest output (unavailable @ [n])
      | Inr (Resolved k info) \<Rightarrow>
          packages_loop E r version rest (dict_set k info output) unavailable)"

text \<open>
  \<^verbatim>\<open>float(x)\<close>: a number as it is, a bool as 1 or 0, a string through the parser;
  \<^verbatim>\<open>None\<close>, a list or a dict raise TypeError. (An integer too large for a float raises
  OverflowError in Python; the numbers of the model have no such bound.)
\<close>

fun py_float :: "env \<Rightarrow> pyval \<Rightarrow> error + rat" where
  "py_float E (PNum n) = Inr n"
| "py_float E (PBool b) = Inr (if b then 1 else 0)"
| "py_float E (PStr s) = (case float_of_str E s of None \<Rightarrow> Inl ValueError | Some n \<Rightarrow> Inr n)"
| "py_float E x = Inl TypeError"

text \<open>
  Lines 118 to 237 of \<^verbatim>\<open>get_packages\<close>, what follows the call of \<^verbatim>\<open>fetch_repo\<close>: the
  checks of the manifest and the loop. Of the exceptions of line 130 only ValueError is
  caught.
\<close>

definition resolve :: "env \<Rightarrow> package_provider \<Rightarrow> (error + pyval) \<times> package_provider" where
  "resolve E self =
     (if eq_False (repo_info self) then (Inr (PBool False), self)
      else
        (case py_contains_str ''schema_version'' (repo_info self) of
           Inl e \<Rightarrow> (Inl e, self)
         | Inr False \<Rightarrow> (Inr (PBool False), self)
         | Inr True \<Rightarrow>
             (case then_do (py_get (repo_info self) ''schema_version'' PNone) (py_float E) of
                Inl ValueError \<Rightarrow> (Inr (PBool False), self)
              | Inl e \<Rightarrow> (Inl e, self)
              | Inr version \<Rightarrow>
                  (let self2 = self\<lparr>schema_version := version\<rparr> in
                   if version \<notin> set [1, 11 / 10, 12 / 10, 2] then (Inr (PBool False), self2)
                   else
                     (case py_contains_str ''packages'' (repo_info self2) of
                        Inl e \<Rightarrow> (Inl e, self2)
                      | Inr False \<Rightarrow> (Inr (PBool False), self2)
                      | Inr True \<Rightarrow>
                          (case then_do (py_getitem_str (repo_info self2) ''packages'') py_iter of
                             Inl e \<Rightarrow> (Inl e, self2)
                           | Inr packages \<Rightarrow>
                               (let (res, unavailable) =
                                      packages_loop E (repo self2) version packages []
                                        (unavailable_packages self2)
                                in (case res of
                                      Inl e \<Rightarrow> Inl e
                                    | Inr output \<Rightarrow> Inr (PDict output),
                                    self2\<lparr>unavailable_packages := unavailable\<rparr>))))))))"

text \<open>
  \<^verbatim>\<open>get_packages\<close>: the dict it returns, \<^verbatim>\<open>False\<close>, or the exception it raises, and the
  object after. The value \<^verbatim>\<open>fetch_repo\<close> returns is not read.
\<close>

definition get_packages :: "env \<Rightarrow> package_provider \<Rightarrow> (error + pyval) \<times> package_provider" where
  "get_packages E self =
     (case fetch_repo E self of
        (Inl e, self1) \<Rightarrow> (Inl e, self1)
      | (Inr fetched, self1) \<Rightarrow> resolve E self1)"

subsection \<open>get\_renamed\_packages and get\_unavailable\_packages\<close>

fun previous_names_loop :: "pyval \<Rightarrow> pyval list \<Rightarrow> pydict \<Rightarrow> error + pydict" where
  "previous_names_loop package [] output = Inr output"
| "previous_names_loop package (previous_name # rest) output =
     (case then_do (py_getitem_str package ''name'') (\<lambda>n.
           then_do (dict_key previous_name) (\<lambda>k. Inr (dict_set k n output))) of
        Inl e \<Rightarrow> Inl e
      | Inr output' \<Rightarrow> previous_names_loop package rest output')"

fun renamed_loop :: "pyval list \<Rightarrow> pydict \<Rightarrow> error + pydict" where
  "renamed_loop [] output = Inr output"
| "renamed_loop (package # rest) output =
     (case py_contains_str ''previous_names'' package of
        Inl e \<Rightarrow> Inl e
      | Inr False \<Rightarrow> renamed_loop rest output
      | Inr True \<Rightarrow>
          (case then_do (py_getitem_str package ''previous_names'') (\<lambda>previous_names.
                previous_names_loop package
                  (case previous_names of PList xs \<Rightarrow> xs | x \<Rightarrow> [x]) output) of
             Inl e \<Rightarrow> Inl e
           | Inr output' \<Rightarrow> renamed_loop rest output'))"

definition get_renamed_packages :: "package_provider \<Rightarrow> error + pyval" where
  "get_renamed_packages self =
     (if schema_version self < 2 then py_get (repo_info self) ''renamed_packages'' (PDict [])
      else
        then_do (py_getitem_str (repo_info self) ''packages'') (\<lambda>packages.
        then_do (py_iter packages) (\<lambda>ps.
        then_do (renamed_loop ps []) (\<lambda>output. Inr (PDict output)))))"

definition get_unavailable_packages :: "package_provider \<Rightarrow> pyval list" where
  "get_unavailable_packages self = unavailable_packages self"

section \<open>Sample collaborators, to run the model on concrete manifests\<close>

text \<open>
  Modelled from the spec: \<^verbatim>\<open>release_selector.py\<close> is not among the sources. This stands in
  for \<^verbatim>\<open>select_platform\<close> on a Windows host: the first download listed under the platform
  key \<^verbatim>\<open>*\<close>, else under \<^verbatim>\<open>windows\<close>, becomes \<^verbatim>\<open>info['download']\<close>; with neither key the
  result is \<^verbatim>\<open>False\<close> (no eligible release).
\<close>

definition sample_select_platform :: "pyval \<Rightarrow> pyval" where
  "sample_select_platform info =
     (case py_getitem_str info ''platforms'' of
        Inr (PDict ps) \<Rightarrow>
          (case map_of ps (PStr ''*'') of
             Some (PList (d # ds)) \<Rightarrow>
               (case py_setitem_str info ''download'' d of Inr i \<Rightarrow> i | Inl e \<Rightarrow> PBool False)
           | _ \<Rightarrow>
               (case map_of ps (PStr ''windows'') of
                  Some (PList (d # ds)) \<Rightarrow>
                    (case py_setitem_str info ''download'' d of Inr i \<Rightarrow> i | Inl e \<Rightarrow> PBool False)
                | _ \<Rightarrow> PBool False))
      | _ \<Rightarrow> PBool False)"

text \<open>
  Modelled from the spec: a stand-in for \<^verbatim>\<open>select_release\<close>: the first release of
  \<^verbatim>\<open>info['releases']\<close> becomes \<^verbatim>\<open>info['download']\<close>; with no release the result is \<^verbatim>\<open>False\<close>.
\<close>

definition sample_select_release :: "pyval \<Rightarrow> pyval" where
  "sample_select_release info =
     (case py_getitem_str info ''releases'' of
        Inr (PList (d # ds)) \<Rightarrow>
          (case py_setitem_str info ''download'' d of Inr i \<Rightarrow> i | Inl e \<Rightarrow> PBool False)
      | _ \<Rightarrow> PBool False)"

text \<open>A stand-in for \<^verbatim>\<open>urlparse\<close> on URLs of the shape scheme://netloc/path.\<close>

definition sample_urlparse :: "string \<Rightarrow> parse_result" where
  "sample_urlparse u =
     (let sch = takeWhile (\<lambda>c. c \<noteq> CHR '':'') u;
          after = drop (length sch + 3) u
      in \<lparr>url_scheme = sch,
          url_netloc = takeWhile (\<lambda>c. c \<noteq> CHR ''/'') after,
          url_path = dropWhile (\<lambda>c. c \<noteq> CHR ''/'') after,
          url_params = [], url_query = [], url_fragment = []\<rparr>)"

text \<open>A stand-in for \<^verbatim>\<open>os.path.dirname\<close> on a path with no trailing slash.\<close>

definition sample_dirname :: "string \<Rightarrow> string" where
  "sample_dirname p = rev (drop 1 (dropWhile (\<lambda>c. c \<noteq> CHR ''/'') (rev p)))"

definition sample_float_of_str :: "string \<Rightarrow> rat option" where
  "sample_float_of_str s =
     (if s = ''1.0'' then Some 1 else if s = ''1.1'' then Some (11 / 10)
      else if s = ''1.2'' then Some (12 / 10) else if s = ''2.0'' then Some 2 else None)"

text \<open>
  A world in which the listed URLs serve the listed documents (the body of a document is
  its URL, which the decoder maps to the value), every other download fails, and the
  hosting clients answer from the two tables (\<^verbatim>\<open>False\<close> for a URL they do not list).
\<close>

definition sample_env :: "(string \<times> pyval) list \<Rightarrow> pydict \<Rightarrow> pydict \<Rightarrow> env" where
  "sample_env documents repos downloads =
     \<lparr>download_url = (\<lambda>url. if map_of documents url = None then None else Some url),
      json_loads = map_of documents,
      urlparse = sample_urlparse,
      dirname = sample_dirname,
      normpath = (\<lambda>p. p),
      github_repo_info = (\<lambda>d. case map_of repos d of None \<Rightarrow> PBool False | Some v \<Rightarrow> v),
      bitbucket_repo_info = (\<lambda>d. PBool False),
      github_download_info =
        (\<lambda>d. case map_of downloads d of None \<Rightarrow> PBool False | Some v \<Rightarrow> v),
      bitbucket_download_info = (\<lambda>d. PBool False),
      select_release = sample_select_release,
      select_platform = sample_select_platform,
      float_of_str = sample_float_of_str\<rparr>"

subsection \<open>Sample manifests\<close>

definition root_url :: string where
  "root_url = ''https://example.com/a/repo.json''"

text \<open>A schema 2.0 package with an explicit author and a details URL the host knows.\<close>

definition details_manifest :: pyval where
  "details_manifest =
     PDict [(PStr ''schema_version'', PStr ''2.0''),
            (PStr ''packages'', PList [PDict [(PStr ''name'', PStr ''P''),
                                             (PStr ''author'', PStr ''Y''),
                                             (PStr ''details'', PStr ''https://github.com/u/r'')]])]"

definition details_repos :: pydict where
  "details_repos =
     [(PStr ''https://github.com/u/r'',
       PDict [(PStr ''author'', PStr ''X''), (PStr ''description'', PStr ''D'')])]"

text \<open>
  A schema 2.0 package with two releases; the host knows the details URL of the second
  only.
\<close>

definition release_a :: pyval where
  "release_a = PDict [(PStr ''details'', PStr ''https://github.com/u/a/tags''),
                      (PStr ''version'', PStr ''1.0'')]"

definition release_b :: pyval where
  "release_b = PDict [(PStr ''details'', PStr ''https://github.com/u/b/tags''),
                      (PStr ''version'', PStr ''2.0'')]"

definition releases_downloads :: pydict where
  "releases_downloads =
     [(PStr ''https://github.com/u/b/tags'',
       PDict [(PStr ''url'', PStr ''https://example.com/b.zip'')])]"

definition releases_manifest :: pyval where
  "releases_manifest =
     PDict [(PStr ''schema_version'', PStr ''2.0''),
            (PStr ''packages'', PList [PDict [(PStr ''name'', PStr ''P''),
                                             (PStr ''releases'', PList [release_a, release_b])]])]"

text \<open>Manifests that fail the checks of lines 125 to 141.\<close>

definition null_version_manifest :: pyval where
  "null_version_manifest = PDict [(PStr ''schema_version'', PNone), (PStr ''packages'', PList [])]"

definition no_version_includes_manifest :: pyval where
  "no_version_includes_manifest = PDict [(PStr ''packages'', PList []), (PStr ''includes'', PList [])]"

text \<open>Manifests with includes, and the manifest the includes point to.\<close>

definition relative_include_manifest :: pyval where
  "relative_include_manifest =
     PDict [(PStr ''schema_version'', PStr ''2.0''), (PStr ''packages'', PList []),
            (PStr ''includes'', PList [PStr ''../b.json''])]"

definition included_manifest :: pyval where
  "included_manifest =
     PDict [(PStr ''schema_version'', PStr ''1.2''),
            (PStr ''packages'', PList [PDict [(PStr ''name'', PStr ''B'')]])]"

definition absolute_includes_manifest :: pyval where
  "absolute_includes_manifest =
     PDict [(PStr ''schema_version'', PStr ''1.2''),
            (PStr ''packages'', PList [PDict [(PStr ''name'', PStr ''A'')]]),
            (PStr ''includes'', PList [PStr ''https://example.com/missing.json'',
                                       PStr ''https://example.com/b.json''])]"

text \<open>
  Schema 1.2 manifests: the same name on an entry for every platform and on one for
  OS X only, and a single entry for OS X only.
\<close>

definition any_platform_entry :: pyval where
  "any_platform_entry =
     PDict [(PStr ''name'', PStr ''P''),
            (PStr ''platforms'',
             PDict [(PStr ''*'', PList [PDict [(PStr ''version'', PStr ''1.0''),
                                               (PStr ''url'', PStr ''https://example.com/p.zip'')]])])]"

definition osx_only_entry :: pyval where
  "osx_only_entry =
     PDict [(PStr ''name'', PStr ''P''),
            (PStr ''platforms'',
             PDict [(PStr ''osx'', PList [PDict [(PStr ''version'', PStr ''1.0''),
                                                 (PStr ''url'', PStr ''https://example.com/p-osx.zip'')]])])]"

definition same_name_manifest :: pyval where
  "same_name_manifest =
     PDict [(PStr ''schema_version'', PStr ''1.2''),
            (PStr ''packages'', PList [any_platform_entry, osx_only_entry])]"

definition osx_only_manifest :: pyval where
  "osx_only_manifest =
     PDict [(PStr ''schema_version'', PStr ''1.2''),
            (PStr ''packages'', PList [osx_only_entry])]"

text \<open>
  The entry for OS X only without its name, and manifests that hold it next to the
  entry for every platform, and alone.
\<close>

definition nameless_entry :: pyval where
  "nameless_entry =
     PDict [(PStr ''platforms'',
             PDict [(PStr ''osx'', PList [PDict [(PStr ''version'', PStr ''1.0''),
                                                 (PStr ''url'', PStr ''https://example.com/p-osx.zip'')]])])]"

definition nameless_manifest :: pyval where
  "nameless_manifest =
     PDict [(PStr ''schema_version'', PStr ''1.2''),
            (PStr ''packages'', PList [any_platform_entry, nameless_entry])]"

text \<open>
  What \<^verbatim>\<open>get_packages\<close> stores for the entry for every platform, and the object after a
  first call on the manifest that holds the two entries of one name.
\<close>

definition any_platform_resolved :: pyval where
  "any_platform_resolved =
     PDict [(PStr ''name'', PStr ''P''),
            (PStr ''platforms'',
             PDict [(PStr ''*'', PList [PDict [(PStr ''version'', PStr ''1.0''),
                                               (PStr ''url'', PStr ''https://example.com/p.zip'')]])]),
            (PStr ''download'',
             PDict [(PStr ''version'', PStr ''1.0''),
                    (PStr ''url'', PStr ''https://example.com/p.zip'')]),
            (PStr ''url'', PStr ''https://example.com/a/repo.json'')]"

definition same_name_loaded :: package_provider where
  "same_name_loaded =
     (init root_url (PDict []))\<lparr>repo_info := same_name_manifest, schema_version := 12 / 10\<rparr>"

text \<open>
  A world whose \<^verbatim>\<open>select_platform\<close> hands \<^verbatim>\<open>info\<close> back without a download where the
  sample one finds no eligible release: a selected result that counts as true and has no
  \<^verbatim>\<open>download\<close> key.
\<close>

definition lenient_env :: "(string \<times> pyval) list \<Rightarrow> env" where
  "lenient_env documents =
     (sample_env documents [] [])
       \<lparr>select_platform :=
          (\<lambda>info. if truthy (sample_select_platform info) then sample_select_platform info
                   else info)\<rparr>"

section \<open>What the patterns match\<close>

lemma rx_seq_Cons_iff:
  "st' \<in> set (rx_seq (r # rs) st) \<longleftrightarrow>
     (\<exists>p s m. (p, s, m) \<in> set (rx_item r st) \<and> st' \<in> set (rx_seq rs (p, s, m)))"
  by auto

lemma rx_seq_Nil_iff: "st' \<in> set (rx_seq [] st) \<longleftrightarrow> st' = st"
  by auto

lemma take_eq_prefix: "take (length l) s = l \<longleftrightarrow> (\<exists>r. s = l @ r)"
  by (metis append_eq_conv_conj append_take_drop_id)

lemma item_Lit_iff:
  "x \<in> set (rx_item (Lit l) (p, s, m)) \<longleftrightarrow> (\<exists>r. s = l @ r \<and> x = (p + length l, r, m))"
  by (auto simp: take_eq_prefix)

lemma item_Dot_iff:
  "x \<in> set (rx_item Dot (p, s, m)) \<longleftrightarrow>
     (\<exists>c r. s = c # r \<and> c \<noteq> newline \<and> x = (Suc p, r, m))"
  by (cases s) auto

lemma item_Opt_iff:
  "x \<in> set (rx_item (Opt r) (p, s, m)) \<longleftrightarrow> x \<in> set (rx_item r (p, s, m)) \<or> x = (p, s, m)"
  by auto

lemma item_Bol_iff:
  "x \<in> set (rx_item Bol (p, s, m)) \<longleftrightarrow> p = 0 \<and> x = (p, s, m)"
  by auto

lemma item_Eol_iff:
  "x \<in> set (rx_item Eol (p, s, m)) \<longleftrightarrow> (s = [] \<or> s = [newline]) \<and> x = (p, s, m)"
  by auto

lemma le_takeWhile_iff:
  "n \<le> length (takeWhile P s) \<longleftrightarrow> n \<le> length s \<and> (\<forall>x \<in> set (take n s). P x)"
proof (induction s arbitrary: n)
  case Nil
  then show ?case by simp
next
  case (Cons a s)
  show ?case
  proof (cases n)
    case 0
    then show ?thesis by simp
  next
    case (Suc k)
    then show ?thesis using Cons.IH [of k] by auto
  qed
qed

lemma item_PlusNot_iff:
  "x \<in> set (rx_item (PlusNot c) (p, s, m)) \<longleftrightarrow>
     (\<exists>u r. s = u @ r \<and> u \<noteq> [] \<and> c \<notin> set u \<and> x = (p + length u, r, m))"
proof
  assume "x \<in> set (rx_item (PlusNot c) (p, s, m))"
  then obtain n where n: "1 \<le> n" "n \<le> length (takeWhile (\<lambda>x. x \<noteq> c) s)"
    and x: "x = (p + n, drop n s, m)"
    by auto
  from n(2) have len: "n \<le> length s" and all: "\<forall>y \<in> set (take n s). y \<noteq> c"
    by (simp_all add: le_takeWhile_iff)
  have "s = take n s @ drop n s" by simp
  moreover have "take n s \<noteq> []" using n(1) len by auto
  moreover have "c \<notin> set (take n s)" using all by auto
  moreover have "x = (p + length (take n s), drop n s, m)" using x len by simp
  ultimately show "\<exists>u r. s = u @ r \<and> u \<noteq> [] \<and> c \<notin> set u \<and> x = (p + length u, r, m)"
    by blast
next
  assume "\<exists>u r. s = u @ r \<and> u \<noteq> [] \<and> c \<notin> set u \<and> x = (p + length u, r, m)"
  then obtain u r where s: "s = u @ r" and u: "u \<noteq> []" "c \<notin> set u"
    and x: "x = (p + length u, r, m)" by blast
  have "length u \<le> length (takeWhile (\<lambda>x. x \<noteq> c) s)"
    using s u(2) by (auto simp: le_takeWhile_iff)
  moreover have "1 \<le> length u" using u(1) by (cases u) auto
  moreover have "drop (length u) s = r" using s by simp
  ultimately show "x \<in> set (rx_item (PlusNot c) (p, s, m))"
    using x by (auto simp: image_iff intro!: bexI [of _ "length u"])
qed

lemma bol_only_at_start: "0 < pos \<Longrightarrow> rx_matches_at [Bol # rs] subject pos = []"
  by (simp add: rx_matches_at_def)

lemma re_search_bol:
  "re_search [Bol # rs] subject = re_match [Bol # rs] subject"
proof -
  have "\<forall>pos \<in> set [Suc 0..<Suc (length subject)]. rx_matches_at [Bol # rs] subject pos = []"
    by (auto simp: rx_matches_at_def simp del: upt_Suc)
  then have "concat (map (rx_matches_at [Bol # rs] subject) [Suc 0..<Suc (length subject)]) = []"
    by (auto simp del: upt_Suc)
  moreover have "[0..<Suc (length subject)] = 0 # [Suc 0..<Suc (length subject)]"
    by (rule upt_conv_Cons) simp
  ultimately have "concat (map (rx_matches_at [Bol # rs] subject) [0..<Suc (length subject)])
      = rx_matches_at [Bol # rs] subject 0"
    by (simp del: upt_Suc)
  then show ?thesis
    by (simp add: re_search_def re_match_def del: upt_Suc)
qed

lemma re_match_None_iff:
  "re_match pat subject \<noteq> None \<longleftrightarrow> (\<exists>st. st \<in> set (rx_matches_at pat subject 0))"
  by (cases "rx_matches_at pat subject 0") (auto simp: re_match_def)

lemma github_pattern_at_0:
  "(\<exists>st. st \<in> set (rx_matches_at github_user_pattern s 0)) \<longleftrightarrow>
   (\<exists>sch c u t e. s = ''http'' @ sch @ ''://github'' @ [c] @ ''com/'' @ u @ t @ e \<and>
      (sch = [] \<or> sch = ''s'') \<and> c \<noteq> newline \<and> u \<noteq> [] \<and> CHR ''/'' \<notin> set u \<and>
      (t = [] \<or> t = ''/'') \<and> (e = [] \<or> e = [newline]))"
  unfolding rx_matches_at_def github_user_pattern_def
  apply (simp only: list.map concat.simps append_Nil2 drop_0 rx_seq_Cons_iff rx_seq_Nil_iff
     item_Lit_iff item_Dot_iff item_Opt_iff item_Bol_iff item_Eol_iff item_PlusNot_iff)
  apply (simp add: ex_disj_distrib conj_disj_distribL conj_disj_distribR del: rx_item.simps rx_seq.simps)
  apply (rule iffI)
   apply (elim disjE exE conjE; simp; blast)
  apply (elim disjE exE conjE; simp)
  done


text \<open>
  C10. \<^verbatim>\<open>PackageProvider.match_url\<close> returns True for every repository URL and settings
  dict. \<^verbatim>\<open>GitHubUserProvider.match_url\<close> returns True exactly when the URL matches
  \<^verbatim>\<open>^https?://github.com/[^/]+/?$\<close>, that is, when it reads: http, an optional s,
  ://github, one character that is not a newline, com/, one or more characters other than
  a slash, an optional slash, and then ends (or ends after one more newline).
\<close>

theorem match_url_generic_and_github_user:
  "match_url self = True \<and>
   (github_match_url g \<longleftrightarrow>
     (\<exists>sch c u t e.
        gh_repo g = ''http'' @ sch @ ''://github'' @ [c] @ ''com/'' @ u @ t @ e \<and>
        (sch = [] \<or> sch = ''s'') \<and> c \<noteq> newline \<and> u \<noteq> [] \<and> CHR ''/'' \<notin> set u \<and>
        (t = [] \<or> t = ''/'') \<and> (e = [] \<or> e = [newline])))"
proof -
  have "github_match_url g \<longleftrightarrow>
      (\<exists>st. st \<in> set (rx_matches_at github_user_pattern (gh_repo g) 0))"
    unfolding github_match_url_def
    using re_search_bol re_match_None_iff
    by (simp add: github_user_pattern_def)
  then show ?thesis
    by (simp only: github_pattern_at_0 match_url_def simp_thms)
qed

lemma rewrite_zipball_legacy_url:
  "rewrite_zipball ''https://nodeload.github.com/u/r/zipball/v1'' =
     ''https://nodeload.github.com/u/r/zip/v1''"
  by code_simp

lemma rewrite_zipball_keeps_other_urls:
  "rewrite_zipball ''https://example.com/u/r/zipball/v1'' = ''https://example.com/u/r/zipball/v1''"
  by code_simp

text \<open>
  C9. A download URL that does not match the pattern with escaped dots should be left as
  it is. The pattern of line 232 has the dots of the host name unescaped, so a URL on a
  host that differs from \<^verbatim>\<open>nodeload.github.com\<close> only where the dots stand is rewritten
  too.
\<close>

theorem rewrite_zipball_other_host:
  "rewrite_zipball ''https://nodeload-github.com/u/r/zipball/v1'' =
     ''https://nodeload-github.com/u/r/zip/v1''"
  by code_simp

section \<open>The merge of explicit and fetched fields\<close>

lemma overlay_raises: "overlay (PDict fetched) explicit = Inl TypeError"
  by (simp add: overlay_def py_dict2_def)

lemma overlay_never_returns: "overlay fetched explicit \<noteq> Inr merged"
  by (cases fetched) (simp_all add: overlay_def py_dict2_def)

text \<open>
  C1. The merged result should map every explicit field to its explicit value and keep
  every field of the provider. The source builds it with \<^verbatim>\<open>dict(a.items(), b.items())\<close>,
  which raises TypeError: with a details URL the host knows, \<^verbatim>\<open>get_packages\<close> ends there
  and returns no package at all.
\<close>

theorem merge_raises:
  "get_packages (sample_env [(root_url, details_manifest)] details_repos [])
       (init root_url (PDict [])) =
     (Inl TypeError,
      (init root_url (PDict []))\<lparr>repo_info := details_manifest, schema_version := 2\<rparr>)"
  by code_simp

section \<open>The loop over the releases\<close>

lemma copy_release_fields_head:
  assumes "py_getitem_0 releases = py_getitem_0 releases'"
  shows "copy_release_fields releases fs di = copy_release_fields releases' fs di"
  by (induction fs arbitrary: di) (simp_all add: assms cong: sum.case_cong bool.case_cong)

lemma release_loop_head:
  assumes "py_getitem_0 releases = py_getitem_0 releases'"
  shows "release_loop E info releases rs di acc = release_loop E info releases' rs di acc"
proof (induction rs arbitrary: di acc)
  case Nil
  then show ?case by simp
next
  case (Cons r rs)
  have c: "copy_release_fields releases fs d = copy_release_fields releases' fs d" for fs d
    using assms by (rule copy_release_fields_head)
  show ?case
    by (simp add: c assms Cons.IH del: copy_release_fields.simps
        cong: sum.case_cong bool.case_cong if_cong)
qed

lemma release_loop_first:
  "release_loop E info (PList (r0 # others)) rs di acc =
     release_loop E info (PList [r0]) rs di acc"
  by (rule release_loop_head) simp

text \<open>
  C2. Each release entry should be enriched from its own fields and its own details URL.
  The loop reads \<^verbatim>\<open>releases[0]\<close> in every round: with two releases of which the host
  knows the second only, the first is looked up twice, no release descriptor is built, and
  the package ends in the unavailable list.
\<close>

theorem second_release_never_read:
  "release_loop (sample_env [] [] releases_downloads)
       [(PStr ''name'', PStr ''P''), (PStr ''releases'', PList [])]
       (PList [release_a, release_b]) [release_a, release_b] [] [] = Inr [] \<and>
   get_packages (sample_env [(root_url, releases_manifest)] [] releases_downloads)
       (init root_url (PDict [])) =
     (Inr (PDict []),
      (init root_url (PDict []))\<lparr>repo_info := releases_manifest, schema_version := 2,
         unavailable_packages := [PStr ''P'']\<rparr>)"
  by code_simp

section \<open>The checks of the manifest\<close>

lemma relative_base_raises: "relative_base E r = Inl TypeError"
  by (simp add: relative_base_def tuple_getitem_str_def)

lemma fetch_repo_includes_raises:
  assumes "repo_info self = PNone"
    and "fetch_url E (repo self) = PDict kvs"
    and "map_of kvs (PStr ''includes'') \<noteq> None"
  shows "fetch_repo E self = (Inl TypeError, self\<lparr>repo_info := PDict kvs\<rparr>)"
  using assms by (simp add: fetch_repo_def relative_base_raises)

lemma resolve_rejects:
  assumes "repo_info self = PDict kvs" and "kvs \<noteq> []"
  shows "map_of kvs (PStr ''schema_version'') = None \<Longrightarrow>
           fst (resolve E self) = Inr (PBool False)"
    and "map_of kvs (PStr ''schema_version'') = Some (PStr s) \<Longrightarrow> float_of_str E s = None \<Longrightarrow>
           fst (resolve E self) = Inr (PBool False)"
    and "then_do (py_get (PDict kvs) ''schema_version'' PNone) (py_float E) = Inr v \<Longrightarrow>
           map_of kvs (PStr ''schema_version'') \<noteq> None \<Longrightarrow>
           v \<notin> set [1, 11 / 10, 12 / 10, 2] \<Longrightarrow>
           fst (resolve E self) = Inr (PBool False)"
    and "then_do (py_get (PDict kvs) ''schema_version'' PNone) (py_float E) = Inr v \<Longrightarrow>
           map_of kvs (PStr ''schema_version'') \<noteq> None \<Longrightarrow>
           map_of kvs (PStr ''packages'') = None \<Longrightarrow>
           fst (resolve E self) = Inr (PBool False)"
  using assms by (auto simp: resolve_def Let_def)

text \<open>
  C3. A manifest whose \<^verbatim>\<open>schema_version\<close> is no number should make \<^verbatim>\<open>get_packages\<close>
  return False. Line 131 catches ValueError only: for \<^verbatim>\<open>"schema_version": null\<close> the call
  \<^verbatim>\<open>float(None)\<close> raises TypeError, which leaves \<^verbatim>\<open>get_packages\<close> as an exception. A
  manifest with an \<^verbatim>\<open>includes\<close> key and no \<^verbatim>\<open>schema_version\<close> does not reach the checks:
  \<^verbatim>\<open>fetch_repo\<close> raises first.
\<close>

theorem validation_raises:
  "fst (get_packages (sample_env [(root_url, null_version_manifest)] [] [])
         (init root_url (PDict []))) = Inl TypeError \<and>
   fst (get_packages (sample_env [(root_url, no_version_includes_manifest)] [] [])
         (init root_url (PDict []))) = Inl TypeError"
  by code_simp

section \<open>Includes\<close>

text \<open>
  C4. The include \<^verbatim>\<open>../b.json\<close> of the root \<^verbatim>\<open>https://example.com/a/repo.json\<close> should be
  fetched as \<^verbatim>\<open>https://example.com/b.json\<close>. Line 72 subscripts the tuple of \<^verbatim>\<open>urlparse\<close>
  with a string, which raises TypeError before any include is resolved or fetched; the
  manifest stays in the object with its \<^verbatim>\<open>includes\<close> key.
\<close>

theorem relative_include_raises:
  "fetch_repo (sample_env [(root_url, relative_include_manifest),
                           (''https://example.com/b.json'', included_manifest)] [] [])
       (init root_url (PDict [])) =
     (Inl TypeError, (init root_url (PDict []))\<lparr>repo_info := relative_include_manifest\<rparr>)"
  by code_simp

text \<open>
  C8. A failed include should be skipped and the packages of the others appended to the
  root's. With one include that cannot be fetched and one that can, \<^verbatim>\<open>get_packages\<close>
  raises TypeError (the same line 72) and the packages of the root are all there is in
  the object.
\<close>

theorem includes_never_appended:
  "get_packages (sample_env [(root_url, absolute_includes_manifest),
                           (''https://example.com/b.json'', included_manifest)] [] [])
       (init root_url (PDict [])) =
     (Inl TypeError, (init root_url (PDict []))\<lparr>repo_info := absolute_includes_manifest\<rparr>)"
  by code_simp

section \<open>The loop over the packages\<close>

lemma packages_loop_append:
  "packages_loop E r v ps out un =
     (fst (packages_loop E r v ps out []), un @ snd (packages_loop E r v ps out []))"
proof (induction ps arbitrary: out un)
  case Nil
  then show ?case by simp
next
  case (Cons p ps)
  show ?case
  proof (cases "package_body E r v p")
    case (Inl e)
    then show ?thesis by simp
  next
    case (Inr oc)
    show ?thesis
    proof (cases oc)
      case (Skipped m)
      with Inr show ?thesis using Cons.IH [of out un] by simp
    next
      case (Unavailable n)
      with Inr show ?thesis
        using Cons.IH [of out "un @ [n]"] Cons.IH [of out "[n]"] by simp
    next
      case (Resolved k info)
      with Inr show ?thesis using Cons.IH [of "dict_set k info out" un] by simp
    qed
  qed
qed


section \<open>A second call on the same object\<close>

lemma fetch_repo_loaded:
  assumes "fetch_repo E self = (Inr x, self1)"
  shows "repo_info self1 \<noteq> PNone \<and> repo self1 = repo self \<and>
     unavailable_packages self1 = unavailable_packages self"
proof (cases "repo_info self = PNone")
  case False
  then show ?thesis using assms by (auto simp: fetch_repo_def)
next
  case True
  then show ?thesis using assms
    by (auto simp: fetch_repo_def Let_def relative_base_def tuple_getitem_str_def
        split: if_splits sum.splits bool.splits pyval.splits)
qed

lemma schema_version_frame:
  "repo_info (t\<lparr>schema_version := v\<rparr>) = repo_info t"
  "repo (t\<lparr>schema_version := v\<rparr>) = repo t"
  "unavailable_packages (t\<lparr>schema_version := v\<rparr>) = unavailable_packages t"
  by simp_all

lemmas resolve_unfold =
  resolve_def Let_def sum.case bool.case error.case prod.case if_True if_False simp_thms
  schema_version_frame

lemma resolve_again:
  assumes "resolve E s = (Inr res, s1)"
  shows "\<exists>d. unavailable_packages s1 = unavailable_packages s @ d \<and>
      repo_info s1 = repo_info s \<and> repo s1 = repo s \<and>
      resolve E s1 = (Inr res, s1\<lparr>unavailable_packages := unavailable_packages s1 @ d\<rparr>)"
proof -
  have same: ?thesis if "s1 = s"
    using that assms by (intro exI [of _ "[]"]) simp
  have early: ?thesis
    if "\<And>t. repo_info t = repo_info s \<Longrightarrow> resolve E t = (x, t\<lparr>schema_version := v\<rparr>)" for x v
  proof -
    from that [of s] assms have s1: "s1 = s\<lparr>schema_version := v\<rparr>" and x: "x = Inr res"
      by simp_all
    have "resolve E s1 = (Inr res, s1)"
      using that [of s1] by (simp add: s1 x)
    then show ?thesis by (intro exI [of _ "[]"]) (simp add: s1)
  qed
  show ?thesis
  proof (cases "eq_False (repo_info s)")
    case True
    then have "resolve E s = (Inr (PBool False), s)" by (simp only: resolve_unfold)
    with assms have "s1 = s" by simp
    then show ?thesis by (rule same)
  next
    case not_false: False
    show ?thesis
    proof (cases "py_contains_str ''schema_version'' (repo_info s)")
      case (Inl e)
      with not_false have "resolve E s = (Inl e, s)" by (simp only: resolve_unfold)
      with assms show ?thesis by simp
    next
      case (Inr b)
      show ?thesis
      proof (cases b)
        case False
        with Inr not_false have "resolve E s = (Inr (PBool False), s)"
          by (simp only: resolve_unfold)
        with assms have "s1 = s" by simp
        then show ?thesis by (rule same)
      next
        case True
        with Inr have has_version: "py_contains_str ''schema_version'' (repo_info s) = Inr True"
          by simp
        show ?thesis
        proof (cases "then_do (py_get (repo_info s) ''schema_version'' PNone) (py_float E)")
          case (Inl e)
          with not_false has_version
          have "resolve E s = (if e = ValueError then Inr (PBool False) else Inl e, s)"
            by (cases e) (simp_all only: resolve_unfold error.simps)
          with assms have "s1 = s" by simp
          then show ?thesis by (rule same)
        next
          case version: (Inr v)
          show ?thesis
          proof (cases "v \<in> set [1, 11 / 10, 12 / 10, 2]")
            case False
            have "resolve E t = (Inr (PBool False), t\<lparr>schema_version := v\<rparr>)"
              if "repo_info t = repo_info s" for t
              using not_false has_version version False
              by (simp only: resolve_unfold that)
            then show ?thesis by (rule early)
          next
            case in_set: True
            show ?thesis
            proof (cases "py_contains_str ''packages'' (repo_info s)")
              case (Inl e)
              with not_false has_version version in_set
              have "resolve E s = (Inl e, s\<lparr>schema_version := v\<rparr>)"
                by (simp only: resolve_unfold)
              with assms show ?thesis by simp
            next
              case has_packages: (Inr b2)
              show ?thesis
              proof (cases b2)
                case False
                have "resolve E t = (Inr (PBool False), t\<lparr>schema_version := v\<rparr>)"
                  if "repo_info t = repo_info s" for t
                  using not_false has_version version in_set has_packages False
                  by (simp only: resolve_unfold that)
                then show ?thesis by (rule early)
              next
                case True
                with has_packages
                have has_packages: "py_contains_str ''packages'' (repo_info s) = Inr True"
                  by simp
                show ?thesis
                proof (cases "then_do (py_getitem_str (repo_info s) ''packages'') py_iter")
                  case (Inl e)
                  with not_false has_version version in_set has_packages
                  have "resolve E s = (Inl e, s\<lparr>schema_version := v\<rparr>)"
                    by (simp only: resolve_unfold)
                  with assms show ?thesis by simp
                next
                  case packages: (Inr ps)
                  define F where "F = fst (packages_loop E (repo s) v ps [] [])"
                  define D where "D = snd (packages_loop E (repo s) v ps [] [])"
                  have loop: "packages_loop E (repo s) v ps [] un = (F, un @ D)" for un
                    unfolding F_def D_def by (rule packages_loop_append)
                  have r: "resolve E t =
                      (case F of Inl e \<Rightarrow> Inl e | Inr out \<Rightarrow> Inr (PDict out),
                       t\<lparr>schema_version := v,
                          unavailable_packages := unavailable_packages t @ D\<rparr>)"
                    if "repo_info t = repo_info s" "repo t = repo s" for t
                    using not_false has_version version in_set has_packages packages
                    by (simp only: resolve_unfold that loop)
                  from r [of s] assms
                  have s1: "s1 = s\<lparr>schema_version := v,
                          unavailable_packages := unavailable_packages s @ D\<rparr>"
                    and res: "(case F of Inl e \<Rightarrow> Inl e | Inr out \<Rightarrow> Inr (PDict out)) = Inr res"
                    by simp_all
                  have "resolve E s1 =
                      (Inr res, s1\<lparr>unavailable_packages := unavailable_packages s1 @ D\<rparr>)"
                    using r [of s1] res by (simp add: s1)
                  then show ?thesis using s1 by (intro exI [of _ D]) simp
                qed
              qed
            qed
          qed
        qed
      qed
    qed
  qed
qed

lemma get_renamed_packages_frame:
  "get_renamed_packages (s\<lparr>unavailable_packages := un\<rparr>) = get_renamed_packages s"
  by (simp add: get_renamed_packages_def)


text \<open>
  C6, as the code has it. When \<^verbatim>\<open>get_packages\<close> returns (a dict or False), a second call
  on the same object returns the same value, and the renamed packages are the same after
  both. The unavailable list is not rebuilt: it is created by \<^verbatim>\<open>__init__\<close> and every call
  appends to it, so the second call appends once more the names the first call appended.
\<close>

theorem second_call_appends_again:
  assumes "get_packages E self = (Inr res, self1)"
  shows "\<exists>d. unavailable_packages self1 = unavailable_packages self @ d \<and>
      get_packages E self1 =
        (Inr res, self1\<lparr>unavailable_packages := unavailable_packages self1 @ d\<rparr>) \<and>
      get_renamed_packages (self1\<lparr>unavailable_packages := unavailable_packages self1 @ d\<rparr>) =
        get_renamed_packages self1"
proof -
  obtain x s where fetched: "fetch_repo E self = (Inr x, s)" and r: "resolve E s = (Inr res, self1)"
    using assms by (auto simp: get_packages_def split: prod.splits sum.splits)
  from fetch_repo_loaded [OF fetched]
  have s: "repo_info s \<noteq> PNone" "unavailable_packages s = unavailable_packages self"
    by simp_all
  from resolve_again [OF r] obtain d where
    d: "unavailable_packages self1 = unavailable_packages s @ d" "repo_info self1 = repo_info s"
      "resolve E self1 = (Inr res, self1\<lparr>unavailable_packages := unavailable_packages self1 @ d\<rparr>)"
    by blast
  have "fetch_repo E self1 = (Inr PNone, self1)"
    using d(2) s(1) by (simp add: fetch_repo_def)
  then have "get_packages E self1 =
      (Inr res, self1\<lparr>unavailable_packages := unavailable_packages self1 @ d\<rparr>)"
    using d(3) by (simp add: get_packages_def)
  then show ?thesis
    using d(1) s(2) by (intro exI [of _ d]) (simp add: get_renamed_packages_frame)
qed


theorem second_call_appends_again_witness:
  "get_packages (sample_env [(root_url, osx_only_manifest)] [] []) (init root_url (PDict [])) =
     (Inr (PDict []),
      (init root_url (PDict []))\<lparr>repo_info := osx_only_manifest, schema_version := 12 / 10,
         unavailable_packages := [PStr ''P'']\<rparr>) \<and>
   (\<exists>d. [PStr ''P''] = [] @ d \<and>
      get_packages (sample_env [(root_url, osx_only_manifest)] [] [])
          ((init root_url (PDict []))\<lparr>repo_info := osx_only_manifest, schema_version := 12 / 10,
             unavailable_packages := [PStr ''P'']\<rparr>) =
        (Inr (PDict []),
         (init root_url (PDict []))\<lparr>repo_info := osx_only_manifest, schema_version := 12 / 10,
            unavailable_packages := [PStr ''P''] @ d\<rparr>))"
proof -
  have h: "get_packages (sample_env [(root_url, osx_only_manifest)] [] [])
      (init root_url (PDict [])) =
     (Inr (PDict []),
      (init root_url (PDict []))\<lparr>repo_info := osx_only_manifest, schema_version := 12 / 10,
         unavailable_packages := [PStr ''P'']\<rparr>)"
    by code_simp
  show ?thesis
    using h second_call_appends_again [OF h] by (auto simp: init_def)
qed

text \<open>
  C6 as stated fails: on a fresh object the first call leaves the unavailable list
  \<^verbatim>\<open>['P']\<close>, the second call with the same inputs leaves \<^verbatim>\<open>['P', 'P']\<close>.
\<close>

theorem unavailable_list_accumulates:
  "(case get_packages (sample_env [(root_url, osx_only_manifest)] [] [])
           (init root_url (PDict [])) of
      (r1, self1) \<Rightarrow>
        (case get_packages (sample_env [(root_url, osx_only_manifest)] [] []) self1 of
           (r2, self2) \<Rightarrow>
             r1 = r2 \<and> get_unavailable_packages self1 = [PStr ''P''] \<and>
             get_unavailable_packages self2 = [PStr ''P'', PStr ''P'']))"
  by code_simp

section \<open>What one package entry adds to the map and to the list\<close>

lemma map_of_dict_set: "map_of (dict_set k v kvs) = (map_of kvs)(k \<mapsto> v)"
  by (induction kvs) (auto simp: fun_upd_twist)

lemma packages_loop_effects:
  assumes "packages_loop E r v ps out un = (Inr out', un')"
  shows "(\<forall>k. map_of out' k \<noteq> None \<longleftrightarrow>
            map_of out k \<noteq> None \<or>
            (\<exists>q \<in> set ps. \<exists>i. package_body E r v q = Inr (Resolved k i))) \<and>
         (\<exists>d. un' = un @ d \<and>
            (\<forall>n. n \<in> set d \<longleftrightarrow> (\<exists>q \<in> set ps. package_body E r v q = Inr (Unavailable n))))"
  using assms
proof (induction ps arbitrary: out un)
  case Nil
  then show ?case by simp
next
  case (Cons p ps)
  show ?case
  proof (cases "package_body E r v p")
    case (Inl e)
    with Cons.prems show ?thesis by simp
  next
    case (Inr oc)
    show ?thesis
    proof (cases oc)
      case (Skipped m)
      with Inr Cons.prems have "packages_loop E r v ps out un = (Inr out', un')" by simp
      from Cons.IH [OF this] obtain d where
        keys: "\<forall>k. map_of out' k \<noteq> None \<longleftrightarrow>
            map_of out k \<noteq> None \<or>
            (\<exists>q \<in> set ps. \<exists>i. package_body E r v q = Inr (Resolved k i))"
        and d: "un' = un @ d"
          "\<forall>m. m \<in> set d \<longleftrightarrow> (\<exists>q \<in> set ps. package_body E r v q = Inr (Unavailable m))"
        by blast
      have body: "package_body E r v p = Inr (Skipped m)" using Inr Skipped by simp
      have "\<forall>k. map_of out' k \<noteq> None \<longleftrightarrow>
            map_of out k \<noteq> None \<or>
            (\<exists>q \<in> set (p # ps). \<exists>i. package_body E r v q = Inr (Resolved k i))"
        using keys by (simp add: body)
      moreover have "\<forall>m. m \<in> set d \<longleftrightarrow>
          (\<exists>q \<in> set (p # ps). package_body E r v q = Inr (Unavailable m))"
        using d(2) by (simp add: body)
      ultimately show ?thesis using d(1) by (intro conjI exI [of _ d]) assumption+
    next
      case (Unavailable n)
      with Inr Cons.prems have "packages_loop E r v ps out (un @ [n]) = (Inr out', un')" by simp
      from Cons.IH [OF this] obtain d where
        keys: "\<forall>k. map_of out' k \<noteq> None \<longleftrightarrow>
            map_of out k \<noteq> None \<or>
            (\<exists>q \<in> set ps. \<exists>i. package_body E r v q = Inr (Resolved k i))"
        and d: "un' = (un @ [n]) @ d"
          "\<forall>m. m \<in> set d \<longleftrightarrow> (\<exists>q \<in> set ps. package_body E r v q = Inr (Unavailable m))"
        by blast
      have body: "package_body E r v p = Inr (Unavailable n)" using Inr Unavailable by simp
      have "\<forall>k. map_of out' k \<noteq> None \<longleftrightarrow>
            map_of out k \<noteq> None \<or>
            (\<exists>q \<in> set (p # ps). \<exists>i. package_body E r v q = Inr (Resolved k i))"
        using keys by (simp add: body)
      moreover have "\<forall>m. m \<in> set (n # d) \<longleftrightarrow>
          (\<exists>q \<in> set (p # ps). package_body E r v q = Inr (Unavailable m))"
        using d(2) by (simp add: body eq_commute [of n])
      moreover have "un' = un @ (n # d)" using d(1) by simp
      ultimately show ?thesis by (intro conjI exI [of _ "n # d"]) assumption+
    next
      case (Resolved k info)
      with Inr Cons.prems
      have "packages_loop E r v ps (dict_set k info out) un = (Inr out', un')" by simp
      from Cons.IH [OF this] obtain d where
        keys: "\<forall>k'. map_of out' k' \<noteq> None \<longleftrightarrow>
            map_of (dict_set k info out) k' \<noteq> None \<or>
            (\<exists>q \<in> set ps. \<exists>i. package_body E r v q = Inr (Resolved k' i))"
        and d: "un' = un @ d"
          "\<forall>m. m \<in> set d \<longleftrightarrow> (\<exists>q \<in> set ps. package_body E r v q = Inr (Unavailable m))"
        by blast
      have body: "package_body E r v p = Inr (Resolved k info)" using Inr Resolved by simp
      have "\<forall>k'. map_of out' k' \<noteq> None \<longleftrightarrow>
            map_of out k' \<noteq> None \<or>
            (\<exists>q \<in> set (p # ps). \<exists>i. package_body E r v q = Inr (Resolved k' i))"
      proof
        fix k'
        show "map_of out' k' \<noteq> None \<longleftrightarrow>
            map_of out k' \<noteq> None \<or>
            (\<exists>q \<in> set (p # ps). \<exists>i. package_body E r v q = Inr (Resolved k' i))"
          using keys [rule_format, of k']
          by (cases "k' = k") (simp_all add: body map_of_dict_set)
      qed
      moreover have "\<forall>m. m \<in> set d \<longleftrightarrow>
          (\<exists>q \<in> set (p # ps). package_body E r v q = Inr (Unavailable m))"
        using d(2) by (simp add: body)
      ultimately show ?thesis using d(1) by (intro conjI exI [of _ d]) assumption+
    qed
  qed
qed

lemma resolve_returns_dict:
  assumes "resolve E s = (Inr (PDict out), s1)"
  shows "\<exists>ps. then_do (py_getitem_str (repo_info s1) ''packages'') py_iter = Inr ps \<and>
      packages_loop E (repo s1) (schema_version s1) ps [] (unavailable_packages s) =
        (Inr out, unavailable_packages s1) \<and>
      repo s1 = repo s"
proof (cases "eq_False (repo_info s)")
  case True
  then have "resolve E s = (Inr (PBool False), s)" by (simp only: resolve_unfold)
  with assms show ?thesis by simp
next
  case not_false: False
  show ?thesis
  proof (cases "py_contains_str ''schema_version'' (repo_info s)")
    case (Inl e)
    with not_false have "resolve E s = (Inl e, s)" by (simp only: resolve_unfold)
    with assms show ?thesis by simp
  next
    case (Inr b)
    show ?thesis
    proof (cases b)
      case False
      with Inr not_false have "resolve E s = (Inr (PBool False), s)"
        by (simp only: resolve_unfold)
      with assms show ?thesis by simp
    next
      case True
      with Inr have has_version: "py_contains_str ''schema_version'' (repo_info s) = Inr True"
        by simp
      show ?thesis
      proof (cases "then_do (py_get (repo_info s) ''schema_version'' PNone) (py_float E)")
        case (Inl e)
        with not_false has_version
        have "resolve E s = (if e = ValueError then Inr (PBool False) else Inl e, s)"
          by (cases e) (simp_all only: resolve_unfold error.simps)
        with assms show ?thesis by (simp split: if_splits)
      next
        case version: (Inr v)
        show ?thesis
        proof (cases "v \<in> set [1, 11 / 10, 12 / 10, 2]")
          case False
          with not_false has_version version
          have "resolve E s = (Inr (PBool False), s\<lparr>schema_version := v\<rparr>)"
            by (simp only: resolve_unfold)
          with assms show ?thesis by simp
        next
          case in_set: True
          show ?thesis
          proof (cases "py_contains_str ''packages'' (repo_info s)")
            case (Inl e)
            with not_false has_version version in_set
            have "resolve E s = (Inl e, s\<lparr>schema_version := v\<rparr>)"
              by (simp only: resolve_unfold)
            with assms show ?thesis by simp
          next
            case has_packages: (Inr b2)
            show ?thesis
            proof (cases b2)
              case False
              with not_false has_version version in_set has_packages
              have "resolve E s = (Inr (PBool False), s\<lparr>schema_version := v\<rparr>)"
                by (simp only: resolve_unfold)
              with assms show ?thesis by simp
            next
              case True
              with has_packages
              have has_packages: "py_contains_str ''packages'' (repo_info s) = Inr True"
                by simp
              show ?thesis
              proof (cases "then_do (py_getitem_str (repo_info s) ''packages'') py_iter")
                case (Inl e)
                with not_false has_version version in_set has_packages
                have "resolve E s = (Inl e, s\<lparr>schema_version := v\<rparr>)"
                  by (simp only: resolve_unfold)
                with assms show ?thesis by simp
              next
                case packages: (Inr ps)
                obtain F U where
                  loop: "packages_loop E (repo s) v ps [] (unavailable_packages s) = (F, U)"
                  by (cases "packages_loop E (repo s) v ps [] (unavailable_packages s)")
                have "resolve E s =
                    (case F of Inl e \<Rightarrow> Inl e | Inr out \<Rightarrow> Inr (PDict out),
                     s\<lparr>schema_version := v, unavailable_packages := U\<rparr>)"
                  using not_false has_version version in_set has_packages packages
                  by (simp only: resolve_unfold loop)
                with assms
                have s1: "s1 = s\<lparr>schema_version := v, unavailable_packages := U\<rparr>"
                  and F: "F = Inr out"
                  by (simp_all split: sum.splits)
                show ?thesis
                  using packages loop by (intro exI [of _ ps]) (simp add: s1 F)
              qed
            qed
          qed
        qed
      qed
    qed
  qed
qed

lemma get_packages_returns_dict:
  assumes "get_packages E self = (Inr (PDict out), self1)"
  shows "\<exists>ps. then_do (py_getitem_str (repo_info self1) ''packages'') py_iter = Inr ps \<and>
      packages_loop E (repo self1) (schema_version self1) ps [] (unavailable_packages self) =
        (Inr out, unavailable_packages self1)"
proof -
  obtain x s where fetched: "fetch_repo E self = (Inr x, s)"
    and r: "resolve E s = (Inr (PDict out), self1)"
    using assms by (auto simp: get_packages_def split: prod.splits sum.splits)
  from fetch_repo_loaded [OF fetched]
  have "unavailable_packages s = unavailable_packages self" by simp
  with resolve_returns_dict [OF r] show ?thesis by auto
qed

lemma get_packages_effects:
  assumes "get_packages E self = (Inr (PDict out), self1)"
    and "then_do (py_getitem_str (repo_info self1) ''packages'') py_iter = Inr ps"
  shows "(\<forall>k. map_of out k \<noteq> None \<longleftrightarrow>
            (\<exists>q \<in> set ps. \<exists>i.
               package_body E (repo self1) (schema_version self1) q = Inr (Resolved k i))) \<and>
         (\<exists>d. unavailable_packages self1 = unavailable_packages self @ d \<and>
            (\<forall>n. n \<in> set d \<longleftrightarrow>
               (\<exists>q \<in> set ps.
                  package_body E (repo self1) (schema_version self1) q = Inr (Unavailable n))))"
proof -
  from get_packages_returns_dict [OF assms(1)] assms(2)
  have "packages_loop E (repo self1) (schema_version self1) ps [] (unavailable_packages self) =
      (Inr out, unavailable_packages self1)"
    by auto
  from packages_loop_effects [OF this] show ?thesis by simp
qed

text \<open>
  C5, as the code has it. Let \<^verbatim>\<open>get_packages\<close> return a map, and let one of the package
  entries carry a name and have no eligible release. Then the call has appended that name
  to the unavailable list, and the entry has put no key in the map: the keys of the map
  are exactly the names under which the other entries were resolved, so the name is a key
  only if another entry is resolved under it.
\<close>

theorem unavailable_entry:
  assumes "get_packages E self = (Inr (PDict out), self1)"
    and "then_do (py_getitem_str (repo_info self1) ''packages'') py_iter = Inr ps"
    and "package \<in> set ps"
    and "selected_info E (schema_version self1) package = Inr (Next info)"
    and "\<not> truthy info"
    and "py_getitem_str package ''name'' = Inr n"
  shows "(\<exists>d. unavailable_packages self1 = unavailable_packages self @ d \<and> n \<in> set d) \<and>
         (\<forall>k. map_of out k \<noteq> None \<longleftrightarrow>
            (\<exists>q \<in> set ps. q \<noteq> package \<and>
               (\<exists>i. package_body E (repo self1) (schema_version self1) q =
                      Inr (Resolved k i))))"
proof -
  have body: "package_body E (repo self1) (schema_version self1) package = Inr (Unavailable n)"
    using assms(4-6) by (simp add: package_body_def finish_def)
  from get_packages_effects [OF assms(1,2)] obtain d where
    keys: "\<forall>k. map_of out k \<noteq> None \<longleftrightarrow>
            (\<exists>q \<in> set ps. \<exists>i.
               package_body E (repo self1) (schema_version self1) q = Inr (Resolved k i))"
    and d: "unavailable_packages self1 = unavailable_packages self @ d"
      "\<forall>m. m \<in> set d \<longleftrightarrow>
          (\<exists>q \<in> set ps.
             package_body E (repo self1) (schema_version self1) q = Inr (Unavailable m))"
    by blast
  have "n \<in> set d" using d(2) body assms(3) by blast
  moreover have other: "q \<noteq> package"
    if "package_body E (repo self1) (schema_version self1) q = Inr (Resolved k i)" for q k i
    using that body by auto
  have "(\<exists>q \<in> set ps. \<exists>i.
        package_body E (repo self1) (schema_version self1) q = Inr (Resolved k i)) \<longleftrightarrow>
      (\<exists>q \<in> set ps. q \<noteq> package \<and>
        (\<exists>i. package_body E (repo self1) (schema_version self1) q = Inr (Resolved k i)))" for k
    using other by blast
  ultimately show ?thesis using keys d(1) by (intro conjI exI [of _ d]) simp_all
qed

theorem unavailable_entry_witness:
  "get_packages (sample_env [(root_url, same_name_manifest)] [] []) (init root_url (PDict [])) =
     (Inr (PDict [(PStr ''P'', any_platform_resolved)]),
      same_name_loaded\<lparr>unavailable_packages := [PStr ''P'']\<rparr>) \<and>
   then_do (py_getitem_str
              (repo_info (same_name_loaded\<lparr>unavailable_packages := [PStr ''P'']\<rparr>))
              ''packages'') py_iter = Inr [any_platform_entry, osx_only_entry] \<and>
   osx_only_entry \<in> set [any_platform_entry, osx_only_entry] \<and>
   selected_info (sample_env [(root_url, same_name_manifest)] [] [])
       (schema_version (same_name_loaded\<lparr>unavailable_packages := [PStr ''P'']\<rparr>))
       osx_only_entry = Inr (Next (PBool False)) \<and>
   \<not> truthy (PBool False) \<and>
   py_getitem_str osx_only_entry ''name'' = Inr (PStr ''P'') \<and>
   (\<exists>d. unavailable_packages (same_name_loaded\<lparr>unavailable_packages := [PStr ''P'']\<rparr>) =
           unavailable_packages (init root_url (PDict [])) @ d \<and> PStr ''P'' \<in> set d) \<and>
   (\<forall>k. map_of [(PStr ''P'', any_platform_resolved)] k \<noteq> None \<longleftrightarrow>
      (\<exists>q \<in> set [any_platform_entry, osx_only_entry]. q \<noteq> osx_only_entry \<and>
         (\<exists>i. package_body (sample_env [(root_url, same_name_manifest)] [] [])
                 (repo (same_name_loaded\<lparr>unavailable_packages := [PStr ''P'']\<rparr>))
                 (schema_version (same_name_loaded\<lparr>unavailable_packages := [PStr ''P'']\<rparr>)) q =
               Inr (Resolved k i))))"
proof -
  have h1: "get_packages (sample_env [(root_url, same_name_manifest)] [] [])
        (init root_url (PDict [])) =
     (Inr (PDict [(PStr ''P'', any_platform_resolved)]),
      same_name_loaded\<lparr>unavailable_packages := [PStr ''P'']\<rparr>)"
    by code_simp
  have h2: "then_do (py_getitem_str
              (repo_info (same_name_loaded\<lparr>unavailable_packages := [PStr ''P'']\<rparr>))
              ''packages'') py_iter = Inr [any_platform_entry, osx_only_entry]"
    by code_simp
  have h3: "osx_only_entry \<in> set [any_platform_entry, osx_only_entry]"
    by simp
  have h4: "selected_info (sample_env [(root_url, same_name_manifest)] [] [])
       (schema_version (same_name_loaded\<lparr>unavailable_packages := [PStr ''P'']\<rparr>))
       osx_only_entry = Inr (Next (PBool False))"
    by code_simp
  have h5: "\<not> truthy (PBool False)"
    by simp
  have h6: "py_getitem_str osx_only_entry ''name'' = Inr (PStr ''P'')"
    by code_simp
  note c = unavailable_entry [OF h1 h2 h3 h4 h5 h6]
  show ?thesis
    by (rule conjI [OF h1 conjI [OF h2 conjI [OF h3 conjI [OF h4 conjI [OF h5 conjI [OF h6 c]]]]]])
qed

text \<open>
  C5 as stated fails in two ways. Where two entries share a name, the entry for every
  platform is resolved, the entry for OS X only has no eligible release on the sample
  host, and the name \<^verbatim>\<open>P\<close> ends both as a key of the output map and in the unavailable
  list. Where the entry without eligible release has no \<^verbatim>\<open>name\<close> key, line 220 raises
  KeyError: nothing is appended and \<^verbatim>\<open>get_packages\<close> returns no map.
\<close>

theorem same_name_in_both:
  "selected_info (sample_env [] [] []) (12 / 10) osx_only_entry = Inr (Next (PBool False)) \<and>
   (case get_packages (sample_env [(root_url, same_name_manifest)] [] [])
           (init root_url (PDict [])) of
      (Inr (PDict out), self1) \<Rightarrow>
        PStr ''P'' \<in> set (unavailable_packages self1) \<and> map_of out (PStr ''P'') \<noteq> None
    | _ \<Rightarrow> False) \<and>
   selected_info (sample_env [] [] []) (12 / 10) nameless_entry = Inr (Next (PBool False)) \<and>
   fst (get_packages (sample_env [(root_url, nameless_manifest)] [] [])
          (init root_url (PDict []))) = Inl KeyError"
  by code_simp

text \<open>
  C7, as the code has it. Let \<^verbatim>\<open>get_packages\<close> return a map, and let the selected result
  of one of the package entries count as true, have no \<^verbatim>\<open>download\<close> key, and have the
  \<^verbatim>\<open>name\<close> key. Then the round of that entry writes the message of line 224 with that
  name and goes on to the next entry, and the entry has put nothing in the map or in the
  unavailable list: the keys of the map are exactly the names under which the other
  entries were resolved, and the names the call has appended to the list are exactly
  those of the other entries that have no eligible release.
\<close>

theorem missing_download_skipped:
  assumes "get_packages E self = (Inr (PDict out), self1)"
    and "then_do (py_getitem_str (repo_info self1) ''packages'') py_iter = Inr ps"
    and "package \<in> set ps"
    and "selected_info E (schema_version self1) package = Inr (Next info)"
    and "truthy info"
    and "py_contains_str ''download'' info = Inr False"
    and "py_getitem_str info ''name'' = Inr n"
  shows "package_body E (repo self1) (schema_version self1) package =
           Inr (Skipped (No_releases n (repo self1))) \<and>
         (\<forall>k. map_of out k \<noteq> None \<longleftrightarrow>
            (\<exists>q \<in> set ps. q \<noteq> package \<and>
               (\<exists>i. package_body E (repo self1) (schema_version self1) q =
                      Inr (Resolved k i)))) \<and>
         (\<exists>d. unavailable_packages self1 = unavailable_packages self @ d \<and>
            (\<forall>m. m \<in> set d \<longleftrightarrow>
               (\<exists>q \<in> set ps. q \<noteq> package \<and>
                  package_body E (repo self1) (schema_version self1) q =
                    Inr (Unavailable m))))"
proof -
  have body: "package_body E (repo self1) (schema_version self1) package =
      Inr (Skipped (No_releases n (repo self1)))"
    using assms(4-7) by (simp add: package_body_def finish_def console_write_name_def)
  from get_packages_effects [OF assms(1,2)] obtain d where
    keys: "\<forall>k. map_of out k \<noteq> None \<longleftrightarrow>
            (\<exists>q \<in> set ps. \<exists>i.
               package_body E (repo self1) (schema_version self1) q = Inr (Resolved k i))"
    and d: "unavailable_packages self1 = unavailable_packages self @ d"
      "\<forall>m. m \<in> set d \<longleftrightarrow>
          (\<exists>q \<in> set ps.
             package_body E (repo self1) (schema_version self1) q = Inr (Unavailable m))"
    by blast
  have other: "q \<noteq> package"
    if "package_body E (repo self1) (schema_version self1) q = Inr (Resolved k i) \<or>
        package_body E (repo self1) (schema_version self1) q = Inr (Unavailable m)" for q k i m
    using that body by auto
  have r: "(\<exists>q \<in> set ps. \<exists>i.
        package_body E (repo self1) (schema_version self1) q = Inr (Resolved k i)) \<longleftrightarrow>
      (\<exists>q \<in> set ps. q \<noteq> package \<and>
        (\<exists>i. package_body E (repo self1) (schema_version self1) q = Inr (Resolved k i)))" for k
    using other by blast
  have u: "(\<exists>q \<in> set ps.
        package_body E (repo self1) (schema_version self1) q = Inr (Unavailable m)) \<longleftrightarrow>
      (\<exists>q \<in> set ps. q \<noteq> package \<and>
        package_body E (repo self1) (schema_version self1) q = Inr (Unavailable m))" for m
    using other by blast
  show ?thesis
    using body keys d(1) d(2) by (intro conjI exI [of _ d]) (simp_all add: r u)
qed

theorem missing_download_skipped_witness:
  "get_packages (lenient_env [(root_url, same_name_manifest)]) (init root_url (PDict [])) =
     (Inr (PDict [(PStr ''P'', any_platform_resolved)]), same_name_loaded) \<and>
   then_do (py_getitem_str (repo_info same_name_loaded) ''packages'') py_iter =
     Inr [any_platform_entry, osx_only_entry] \<and>
   osx_only_entry \<in> set [any_platform_entry, osx_only_entry] \<and>
   selected_info (lenient_env [(root_url, same_name_manifest)])
       (schema_version same_name_loaded) osx_only_entry = Inr (Next osx_only_entry) \<and>
   truthy osx_only_entry \<and>
   py_contains_str ''download'' osx_only_entry = Inr False \<and>
   py_getitem_str osx_only_entry ''name'' = Inr (PStr ''P'') \<and>
   package_body (lenient_env [(root_url, same_name_manifest)]) (repo same_name_loaded)
       (schema_version same_name_loaded) osx_only_entry =
     Inr (Skipped (No_releases (PStr ''P'') (repo same_name_loaded))) \<and>
   (\<forall>k. map_of [(PStr ''P'', any_platform_resolved)] k \<noteq> None \<longleftrightarrow>
      (\<exists>q \<in> set [any_platform_entry, osx_only_entry]. q \<noteq> osx_only_entry \<and>
         (\<exists>i. package_body (lenient_env [(root_url, same_name_manifest)])
                 (repo same_name_loaded) (schema_version same_name_loaded) q =
               Inr (Resolved k i)))) \<and>
   (\<exists>d. unavailable_packages same_name_loaded =
           unavailable_packages (init root_url (PDict [])) @ d \<and>
      (\<forall>m. m \<in> set d \<longleftrightarrow>
         (\<exists>q \<in> set [any_platform_entry, osx_only_entry]. q \<noteq> osx_only_entry \<and>
            package_body (lenient_env [(root_url, same_name_manifest)])
                (repo same_name_loaded) (schema_version same_name_loaded) q =
              Inr (Unavailable m))))"
proof -
  have h1: "get_packages (lenient_env [(root_url, same_name_manifest)])
        (init root_url (PDict [])) =
     (Inr (PDict [(PStr ''P'', any_platform_resolved)]), same_name_loaded)"
    by code_simp
  have h2: "then_do (py_getitem_str (repo_info same_name_loaded) ''packages'') py_iter =
     Inr [any_platform_entry, osx_only_entry]"
    by code_simp
  have h3: "osx_only_entry \<in> set [any_platform_entry, osx_only_entry]"
    by simp
  have h4: "selected_info (lenient_env [(root_url, same_name_manifest)])
       (schema_version same_name_loaded) osx_only_entry = Inr (Next osx_only_entry)"
    by code_simp
  have h5: "truthy osx_only_entry"
    by code_simp
  have h6: "py_contains_str ''download'' osx_only_entry = Inr False"
    by code_simp
  have h7: "py_getitem_str osx_only_entry ''name'' = Inr (PStr ''P'')"
    by code_simp
  note c = missing_download_skipped [OF h1 h2 h3 h4 h5 h6 h7]
  show ?thesis
    by (rule conjI [OF h1 conjI [OF h2 conjI [OF h3 conjI [OF h4 conjI [OF h5
          conjI [OF h6 conjI [OF h7 c]]]]]]])
qed

text \<open>
  C7 as stated fails in two ways. Where the selected result has no \<^verbatim>\<open>download\<close> key and
  no \<^verbatim>\<open>name\<close> key either, the message of line 224 cannot be formatted: KeyError is raised,
  the entry is not skipped and \<^verbatim>\<open>get_packages\<close> returns no map. Where another entry of the
  same name is resolved, the entry is skipped and yet its name is a key of the map.
\<close>

theorem nameless_result_not_skipped:
  "selected_info (lenient_env []) (12 / 10) nameless_entry = Inr (Next nameless_entry) \<and>
   truthy nameless_entry \<and>
   py_contains_str ''download'' nameless_entry = Inr False \<and>
   package_body (lenient_env []) root_url (12 / 10) nameless_entry = Inl KeyError \<and>
   fst (get_packages (lenient_env [(root_url, nameless_manifest)])
          (init root_url (PDict []))) = Inl KeyError \<and>
   package_body (lenient_env []) root_url (12 / 10) osx_only_entry =
     Inr (Skipped (No_releases (PStr ''P'') root_url)) \<and>
   (case get_packages (lenient_env [(root_url, same_name_manifest)])
           (init root_url (PDict [])) of
      (Inr (PDict out), self1) \<Rightarrow> map_of out (PStr ''P'') \<noteq> None
    | _ \<Rightarrow> False)"
  by code_simp

end
